theory Spec2Isabelle
  imports Complex_Main "HOL-Library.Sublist"
begin

section \<open>Values, errors and strings of the Python program\<close>

text \<open>
  The module \<^verbatim>\<open>api/rag.py\<close> works on values decoded from a JSON request body, on
  documents returned by a vector index and on floating-point distances and scores.

  \<^item> A decoded JSON value is a \<open>json\<close>; \<open>JNull\<close> is Python's \<^verbatim>\<open>None\<close>, a JSON
    object is an association list read with \<open>map_of\<close>.
  \<^item> Strings are lists of 8-bit characters; \<^verbatim>\<open>str.lower\<close> is modelled on the ASCII
    letters and leaves every other character unchanged.
  \<^item> A Python float is a real number that is a binary64 float; \<^verbatim>\<open>1.0/(1.0+s)\<close> rounds
    after the sum and after the quotient. Comparison and \<^verbatim>\<open>max\<close> are exact on floats.
    Among floats, exceeding the literal \<^verbatim>\<open>0.7\<close> and exceeding the real number
    \<open>7/10\<close> are the same, since the float nearest to \<open>7/10\<close> lies below it.
    Distances are Python floats, as \<^verbatim>\<open>retrieve\<close> annotates them. An index may hand out
    numpy scalars instead: these divide by zero without raising, and \<^verbatim>\<open>json.dumps\<close>
    refuses a \<^verbatim>\<open>numpy.float32\<close>; what \<^verbatim>\<open>json.dumps\<close> accepts is a parameter of
    the model.
  \<^item> Every exception of the source is a value \<open>Inl e\<close> of a sum type.
    \<open>ValidationError\<close>, \<open>LoadError\<close>, \<open>SearchError\<close> and \<open>InvokeError\<close> stand for
    whatever building the embeddings, loading an index, searching it and calling the chat
    model raise.
\<close>

datatype json =
    JNull
  | JBool bool
  | JNum real
  | JStr string
  | JArr "json list"
  | JObj "(string \<times> json) list"

datatype error =
    JSONDecodeError
  | AttributeError
  | TypeError
  | KeyError
  | IndexError
  | ZeroDivisionError
  | ValidationError
  | LoadError
  | SearchError
  | InvokeError

text \<open>Python's truth value of an object, as \<^verbatim>\<open>or\<close>, \<^verbatim>\<open>not\<close> and \<^verbatim>\<open>if\<close> take it.\<close>

fun truthy :: "json \<Rightarrow> bool" where
  "truthy JNull = False"
| "truthy (JBool b) = b"
| "truthy (JNum x) = (x \<noteq> 0)"
| "truthy (JStr s) = (s \<noteq> [])"
| "truthy (JArr xs) = (xs \<noteq> [])"
| "truthy (JObj kvs) = (kvs \<noteq> [])"

definition py_or :: "json \<Rightarrow> json \<Rightarrow> json" where
  "py_or a b = (if truthy a then a else b)"

text \<open>\<^verbatim>\<open>d.get(key, default)\<close>: only a dict has the method.\<close>

fun py_get :: "json \<Rightarrow> string \<Rightarrow> json \<Rightarrow> error + json" where
  "py_get (JObj kvs) key dflt = (case map_of kvs key of Some v \<Rightarrow> Inr v | None \<Rightarrow> Inr dflt)"
| "py_get _ key dflt = Inl AttributeError"

definition lower_char :: "char \<Rightarrow> char" where
  "lower_char c =
     (case map_of (zip ''ABCDEFGHIJKLMNOPQRSTUVWXYZ'' ''abcdefghijklmnopqrstuvwxyz'') c of
        Some l \<Rightarrow> l
      | None \<Rightarrow> c)"

definition lower :: "string \<Rightarrow> string" where
  "lower s = map lower_char s"

text \<open>\<^verbatim>\<open>k in s\<close> on strings: \<open>k\<close> occurs in \<open>s\<close> as a contiguous substring.\<close>

fun py_in :: "string \<Rightarrow> string \<Rightarrow> bool" where
  "py_in k [] = (k = [])"
| "py_in k (c # cs) = (prefix k (c # cs) \<or> py_in k cs)"

section \<open>Floating-point arithmetic\<close>

text \<open>
  A Python float is an IEEE 754 binary64 number. The finite floats are the reals that
  \<open>fl\<close> leaves unchanged, and an arithmetic operation on floats is the exact operation
  followed by \<open>fl\<close>: rounding to the nearest float, a tie going to the even
  significand. \<open>expo x\<close> is the exponent of a positive \<open>x\<close>: the integer \<open>e\<close> with
  \<open>2 powi e \<le> x < 2 powi (e + 1)\<close>. The spacing of the floats around \<open>x\<close> is
  \<open>2 powi ulp_exp x\<close>, where \<open>ulp_exp x\<close> is \<open>expo \<bar>x\<bar> - 52\<close> and never less than
  \<open>-1074\<close>, the spacing of the subnormal floats. Overflow is left out: the sum
  \<^verbatim>\<open>1.0+s\<close> of a float \<open>s\<close> is zero or at least \<open>2 powi (-53)\<close> in size, so the
  quotient \<^verbatim>\<open>1.0/(1.0+s)\<close> stays far below the largest float.
\<close>

function expo_up :: "real \<Rightarrow> int" where
  "expo_up x = (if x < 2 then 0 else expo_up (x / 2) + 1)"
  by pat_completeness auto
termination
proof (relation "measure (\<lambda>x. nat \<lceil>x\<rceil>)")
  show "wf (measure (\<lambda>x. nat \<lceil>x\<rceil>))" by simp
next
  fix x :: real assume "\<not> x < 2"
  then have "\<lceil>x / 2\<rceil> < \<lceil>x\<rceil>" and "0 < \<lceil>x\<rceil>" by linarith+
  then show "(x / 2, x) \<in> measure (\<lambda>x. nat \<lceil>x\<rceil>)" by simp
qed

function expo_down :: "real \<Rightarrow> int" where
  "expo_down x = (if x \<le> 0 \<or> 1 \<le> x then 0 else expo_down (2 * x) - 1)"
  by pat_completeness auto
termination
proof (relation "measure (\<lambda>x. nat \<lceil>1 / x\<rceil>)")
  show "wf (measure (\<lambda>x. nat \<lceil>1 / x\<rceil>))" by simp
next
  fix x :: real assume "\<not> (x \<le> 0 \<or> 1 \<le> x)"
  then have x: "0 < x" "x < 1" by auto
  define t where "t = 1 / x"
  from x have "1 < t" by (simp add: t_def)
  then have c: "2 \<le> \<lceil>t\<rceil>" by linarith
  have "t \<le> of_int \<lceil>t\<rceil>" by (rule le_of_int_ceiling)
  moreover from c have "(2::real) \<le> of_int \<lceil>t\<rceil>" by linarith
  ultimately have "t / 2 \<le> of_int (\<lceil>t\<rceil> - 1)" by (simp only: of_int_diff of_int_1)
  then have "\<lceil>t / 2\<rceil> \<le> \<lceil>t\<rceil> - 1" by (rule ceiling_le)
  with c have "\<lceil>t / 2\<rceil> < \<lceil>t\<rceil>" and "0 < \<lceil>t\<rceil>" by simp_all
  moreover have "1 / (2 * x) = t / 2" by (simp add: t_def)
  ultimately show "(2 * x, x) \<in> measure (\<lambda>x. nat \<lceil>1 / x\<rceil>)"
    by (simp add: t_def mult.commute)
qed

declare expo_up.simps [simp del] expo_down.simps [simp del]

definition expo :: "real \<Rightarrow> int" where
  "expo x = (if 1 \<le> x then expo_up x else expo_down x)"

definition round_even :: "real \<Rightarrow> int" where
  "round_even x =
     (let f = \<lfloor>x\<rfloor>; r = x - of_int f
      in if r < 1 / 2 then f else if 1 / 2 < r then f + 1 else if even f then f else f + 1)"

definition ulp_exp :: "real \<Rightarrow> int" where
  "ulp_exp x = max (expo \<bar>x\<bar> - 52) (- 1074)"

definition fl :: "real \<Rightarrow> real" where
  "fl x = (if x = 0 then 0 else of_int (round_even (x / 2 powi ulp_exp x)) * 2 powi ulp_exp x)"

definition is_float :: "real \<Rightarrow> bool" where
  "is_float x = (fl x = x)"

section \<open>Intent classifier\<close>

definition nec_keywords :: "string list" where
  "nec_keywords = ['' nec '', ''national electrical code'', ''nfpa 70'', ''article '']"

definition wattmonk_keywords :: "string list" where
  "wattmonk_keywords =
     [''wattmonk'', ''policy'', ''sla'', ''pricing'', ''services'', ''turnaround'']"

text \<open>
  \<^verbatim>\<open>s = (q or "").lower()\<close>: a false value of any type becomes the empty string, a
  true value that is not a string has no \<^verbatim>\<open>lower\<close> and raises.
\<close>

definition lowered :: "json \<Rightarrow> error + string" where
  "lowered q =
     (case py_or q (JStr []) of JStr s \<Rightarrow> Inr (lower s) | _ \<Rightarrow> Inl AttributeError)"

definition classify_intent :: "json \<Rightarrow> error + string" where
  "classify_intent q =
     (case lowered q of
        Inl e \<Rightarrow> Inl e
      | Inr s \<Rightarrow>
          if list_ex (\<lambda>k. py_in k s) nec_keywords then Inr ''nec''
          else if list_ex (\<lambda>k. py_in k s) wattmonk_keywords then Inr ''wattmonk''
          else Inr ''general'')"

section \<open>Mode decider\<close>

text \<open>
  \<^verbatim>\<open>max_s = max(scores) if scores else 0.0\<close>. On a non-empty list \<^verbatim>\<open>max\<close> keeps the
  first element and replaces it by every later one that is greater.
\<close>

fun max_s :: "real list \<Rightarrow> real" where
  "max_s [] = 0"
| "max_s (x # xs) = fold (\<lambda>y m. if m < y then y else m) xs x"

definition decide_mode :: "real list \<Rightarrow> string \<Rightarrow> string" where
  "decide_mode scores intent =
     (if (intent = ''nec'' \<or> intent = ''wattmonk'') \<and> max_s scores > 0.25 then ''rag''
      else if max_s scores > 0.7 then ''rag''
      else ''general'')"

section \<open>The environment: credentials, vector indexes, language model\<close>

text \<open>
  What the module reads from outside is a parameter of the model: the file system under
  \<^verbatim>\<open>data/faiss\<close>, the constructor \<^verbatim>\<open>GoogleGenerativeAIEmbeddings\<close>,
  \<^verbatim>\<open>FAISS.load_local\<close>, the environment variables, the chat model, \<^verbatim>\<open>json.loads\<close>,
  what \<^verbatim>\<open>json.dumps\<close> accepts and Python's \<^verbatim>\<open>str\<close> of a value. A loaded index is its
  \<^verbatim>\<open>similarity_search_with_score\<close>: from a query and a count to a list of documents with
  distances, or an exception. The constructor \<^verbatim>\<open>ChatGoogleGenerativeAI\<close> is taken to
  succeed.
\<close>

record Document =
  page_content :: string
  metadata :: "(string \<times> json) list"

datatype embeddings = Embeddings json

type_synonym vstore = "json \<Rightarrow> int \<Rightarrow> error + (Document \<times> real) list"

record out_doc =
  out_id :: nat
  out_text :: string
  out_source :: json
  out_file :: json
  out_score :: real

record env =
  path_exists :: "string \<Rightarrow> bool"
  make_embeddings :: "json \<Rightarrow> error + embeddings"
  load_local :: "string \<Rightarrow> embeddings option \<Rightarrow> error + vstore"
  GOOGLE_API_KEY :: json
  ENABLE_MEMORY_SUMMARY :: bool
  model_invoke :: "string \<Rightarrow> error + json"
  py_str :: "json \<Rightarrow> string"
  json_loads :: "string \<Rightarrow> error + json"
  serializable :: "out_doc \<Rightarrow> bool"

text \<open>The module's only mutable global.\<close>

record globals =
  KEY_OVERRIDE :: json

definition get_key :: "env \<Rightarrow> globals \<Rightarrow> json" where
  "get_key E g = py_or (KEY_OVERRIDE g) (GOOGLE_API_KEY E)"

text \<open>
  \<^verbatim>\<open>load_vs\<close>. With a key the embeddings are built before the \<^verbatim>\<open>try\<close> block, so an
  exception of their constructor leaves \<^verbatim>\<open>load_vs\<close>; without a key they are
  \<^verbatim>\<open>None\<close>. Inside the block an exception of \<^verbatim>\<open>FAISS.load_local\<close> gives \<^verbatim>\<open>None\<close>.
\<close>

definition load_vs :: "env \<Rightarrow> globals \<Rightarrow> string \<Rightarrow> error + vstore option" where
  "load_vs E g name =
     (if \<not> path_exists E name then Inr None
      else
        let key = get_key E g in
        case (if truthy key
              then (case make_embeddings E key of Inl e \<Rightarrow> Inl e | Inr emb \<Rightarrow> Inr (Some emb))
              else Inr None) of
          Inl e \<Rightarrow> Inl e
        | Inr embeddings \<Rightarrow>
            (case load_local E name embeddings of
               Inl e \<Rightarrow> Inr None
             | Inr vs \<Rightarrow> Inr (Some vs)))"

section \<open>Retriever\<close>

text \<open>\<^verbatim>\<open>if vs: pools.append(vs)\<close>\<close>

definition append_if :: "vstore option \<Rightarrow> vstore list" where
  "append_if v = (case v of None \<Rightarrow> [] | Some vs \<Rightarrow> [vs])"

text \<open>
  The choice of the pools. An exception of \<^verbatim>\<open>load_vs\<close> is not caught here; in the last
  branch both collections are loaded before either is appended.
\<close>

definition select_pools :: "env \<Rightarrow> globals \<Rightarrow> string \<Rightarrow> error + vstore list" where
  "select_pools E g hint =
     (if hint = ''nec'' then
        (case load_vs E g ''nec'' of Inl e \<Rightarrow> Inl e | Inr nec \<Rightarrow> Inr (append_if nec))
      else if hint = ''wattmonk'' then
        (case load_vs E g ''wattmonk'' of Inl e \<Rightarrow> Inl e | Inr wm \<Rightarrow> Inr (append_if wm))
      else
        (case load_vs E g ''nec'' of
           Inl e \<Rightarrow> Inl e
         | Inr nec \<Rightarrow>
             (case load_vs E g ''wattmonk'' of
                Inl e \<Rightarrow> Inl e
              | Inr wm \<Rightarrow> Inr (append_if nec @ append_if wm))))"

text \<open>
  The loop over the pools: the results of a search are appended, a search that raises is
  skipped by \<^verbatim>\<open>except Exception: continue\<close>.
\<close>

fun collect :: "vstore list \<Rightarrow> json \<Rightarrow> int \<Rightarrow> (Document \<times> real) list" where
  "collect [] query k = []"
| "collect (vs # pools) query k =
     (case vs query (k * 2) of
        Inl e \<Rightarrow> collect pools query k
      | Inr docs_and_scores \<Rightarrow> docs_and_scores @ collect pools query k)"

text \<open>
  The slice \<^verbatim>\<open>xs[:k]\<close>: the first \<open>k\<close> elements, and for a negative \<open>k\<close> all but the
  last \<open>-k\<close>.
\<close>

definition py_upto :: "'a list \<Rightarrow> int \<Rightarrow> 'a list" where
  "py_upto xs k = (if 0 \<le> k then take (nat k) xs else take (nat (int (length xs) + k)) xs)"

text \<open>
  \<^verbatim>\<open>1.0/(1.0+s)\<close> on floats: the sum is rounded, a sum of zero makes the division
  raise, and the quotient is rounded.
\<close>

definition score :: "real \<Rightarrow> error + real" where
  "score s =
     (let denominator = fl (1 + s)
      in if denominator = 0 then Inl ZeroDivisionError else Inr (fl (1 / denominator)))"

fun scores_of :: "(Document \<times> real) list \<Rightarrow> error + real list" where
  "scores_of [] = Inr []"
| "scores_of ((d, s) # cs) =
     (case score s of
        Inl e \<Rightarrow> Inl e
      | Inr x \<Rightarrow> (case scores_of cs of Inl e \<Rightarrow> Inl e | Inr xs \<Rightarrow> Inr (x # xs)))"

text \<open>
  \<^verbatim>\<open>retrieve\<close>. The sort by the distance is \<open>sort_key snd\<close>, which is stable as
  \<^verbatim>\<open>list.sort\<close> is; the documents and the scores are both read from the same slice of
  the sorted list.
\<close>

definition retrieve ::
  "env \<Rightarrow> globals \<Rightarrow> json \<Rightarrow> string \<Rightarrow> int \<Rightarrow> error + Document list \<times> real list" where
  "retrieve E g query hint k =
     (case select_pools E g hint of
        Inl e \<Rightarrow> Inl e
      | Inr pools \<Rightarrow>
          if pools = [] then Inr ([], [])
          else
            let candidates = collect pools query k in
            if candidates = [] then Inr ([], [])
            else
              let sorted_candidates = sort_key snd candidates;
                  docs = map fst (py_upto sorted_candidates k)
              in case scores_of (py_upto sorted_candidates k) of
                   Inl e \<Rightarrow> Inl e
                 | Inr scores \<Rightarrow> Inr (docs, scores))"

section \<open>The pipeline\<close>

record sdoc =
  sd_text :: string
  sd_source :: json
  sd_metadata :: "(string \<times> json) list"

record pstate =
  st_query :: json
  st_intent :: string
  st_docs :: "sdoc list"
  st_scores :: "real list"
  st_mode :: string

definition dict_get :: "(string \<times> json) list \<Rightarrow> string \<Rightarrow> json \<Rightarrow> json" where
  "dict_get kvs key dflt = (case map_of kvs key of Some v \<Rightarrow> v | None \<Rightarrow> dflt)"

definition to_sdoc :: "Document \<Rightarrow> sdoc" where
  "to_sdoc d =
     \<lparr>sd_text = page_content d,
      sd_source = py_or (dict_get (metadata d) ''source'' JNull)
                        (dict_get (metadata d) ''file'' (JStr [])),
      sd_metadata = metadata d\<rparr>"

text \<open>
  The compiled graph runs \<^verbatim>\<open>_start\<close>, then \<^verbatim>\<open>_retrieve\<close> with the default \<open>k = 6\<close>,
  and returns the state.
\<close>

definition graph_invoke :: "env \<Rightarrow> globals \<Rightarrow> json \<Rightarrow> error + pstate" where
  "graph_invoke E g q =
     (case classify_intent q of
        Inl e \<Rightarrow> Inl e
      | Inr intent \<Rightarrow>
          (case retrieve E g q intent 6 of
             Inl e \<Rightarrow> Inl e
           | Inr (docs, scores) \<Rightarrow>
               Inr \<lparr>st_query = q, st_intent = intent, st_docs = map to_sdoc docs,
                    st_scores = scores, st_mode = decide_mode scores intent\<rparr>))"

section \<open>Conversation summary\<close>

text \<open>\<^verbatim>\<open>len(x)\<close>: numbers and booleans have no length.\<close>

fun py_len :: "json \<Rightarrow> error + nat" where
  "py_len (JArr xs) = Inr (length xs)"
| "py_len (JStr s) = Inr (length s)"
| "py_len (JObj kvs) = Inr (length kvs)"
| "py_len _ = Inl TypeError"

text \<open>\<^verbatim>\<open>f"{m.get('role')}: {m.get('content')}"\<close> for one message.\<close>

definition message_line :: "env \<Rightarrow> json \<Rightarrow> error + string" where
  "message_line E m =
     (case py_get m ''role'' JNull of
        Inl e \<Rightarrow> Inl e
      | Inr role \<Rightarrow>
          (case py_get m ''content'' JNull of
             Inl e \<Rightarrow> Inl e
           | Inr content \<Rightarrow> Inr (py_str E role @ '': '' @ py_str E content)))"

fun message_lines :: "env \<Rightarrow> json list \<Rightarrow> error + string list" where
  "message_lines E [] = Inr []"
| "message_lines E (m # ms) =
     (case message_line E m of
        Inl e \<Rightarrow> Inl e
      | Inr l \<Rightarrow> (case message_lines E ms of Inl e \<Rightarrow> Inl e | Inr ls \<Rightarrow> Inr (l # ls)))"

fun join :: "string \<Rightarrow> string list \<Rightarrow> string" where
  "join sep [] = []"
| "join sep [l] = l"
| "join sep (l # ls) = l @ sep @ join sep ls"

text \<open>
  \<^verbatim>\<open>messages[-20:]\<close> and the prompt built from it. The elements of a string are
  strings, which have no \<^verbatim>\<open>get\<close>; a dict cannot be sliced.
\<close>

definition build_prompt :: "env \<Rightarrow> json \<Rightarrow> error + string" where
  "build_prompt E messages =
     (case messages of
        JArr ms \<Rightarrow>
          (case message_lines E (drop (length ms - 20) ms) of
             Inl e \<Rightarrow> Inl e
           | Inr ls \<Rightarrow>
               Inr (''Summarize the following conversation briefly but keep key facts, user goals, constraints, and any conclusions.''
                    @ [CHR 0x0A, CHR 0x0A] @ join [CHR 0x0A] ls))
      | JStr s \<Rightarrow>
          (if s = [] then
             Inr (''Summarize the following conversation briefly but keep key facts, user goals, constraints, and any conclusions.''
                  @ [CHR 0x0A, CHR 0x0A])
           else Inl AttributeError)
      | _ \<Rightarrow> Inl TypeError)"

text \<open>
  \<^verbatim>\<open>summarize_history\<close> returns its result together with the prompts it has sent to
  the chat model, so that the model records whether a summarization was attempted.
\<close>

definition summarize_history :: "env \<Rightarrow> globals \<Rightarrow> json \<Rightarrow> (error + json) \<times> string list" where
  "summarize_history E g messages =
     (if \<not> ENABLE_MEMORY_SUMMARY E then (Inr (JStr []), [])
      else
        let key = get_key E g in
        if \<not> truthy messages \<or> \<not> truthy key then (Inr (JStr []), [])
        else
          (case py_len messages of
             Inl e \<Rightarrow> (Inl e, [])
           | Inr n \<Rightarrow>
               if n mod 6 \<noteq> 0 then (Inr (JStr []), [])
               else
                 (case build_prompt E messages of
                    Inl e \<Rightarrow> (Inl e, [])
                  | Inr prompt \<Rightarrow>
                      (case model_invoke E prompt of
                         Inl e \<Rightarrow> (Inr (JStr []), [prompt])
                       | Inr content \<Rightarrow> (Inr (py_or content (JStr [])), [prompt])))))"

section \<open>Request handler\<close>

record request =
  req_method :: string
  get_data :: string

record answer =
  ans_intent :: string
  ans_mode :: string
  ans_docs :: "out_doc list"
  ans_memory_summary :: json

datatype payload = NoBody | Answer answer | Failure error

record response =
  status :: nat
  body :: payload

text \<open>\<^verbatim>\<open>messages[-1].get("content")\<close> for a true \<^verbatim>\<open>messages\<close>.\<close>

definition last_content :: "json \<Rightarrow> error + json" where
  "last_content messages =
     (case messages of
        JArr ms \<Rightarrow> (if ms = [] then Inl IndexError else py_get (last ms) ''content'' JNull)
      | JStr s \<Rightarrow> (if s = [] then Inl IndexError else Inl AttributeError)
      | JObj kvs \<Rightarrow> Inl KeyError
      | _ \<Rightarrow> Inl TypeError)"

text \<open>
  \<^verbatim>\<open>query = messages[-1].get("content") if messages else data.get("query", "")\<close>
\<close>

definition request_query :: "json \<Rightarrow> json \<Rightarrow> error + json" where
  "request_query data messages =
     (if truthy messages then last_content messages else py_get data ''query'' (JStr []))"

text \<open>One entry of the response, from the state's document and its position.\<close>

definition shape_doc :: "real list \<Rightarrow> nat \<times> sdoc \<Rightarrow> out_doc" where
  "shape_doc scores p =
     (case p of (i, d) \<Rightarrow>
        \<lparr>out_id = i + 1,
         out_text = sd_text d,
         out_source = py_or (py_or (dict_get (sd_metadata d) ''source'' JNull) (sd_source d))
                            (JStr []),
         out_file = dict_get (sd_metadata d) ''file'' (JStr []),
         out_score = (if i < length scores then scores ! i else 0)\<rparr>)"

text \<open>
  \<^verbatim>\<open>json.dumps(resp)\<close>. The intent, the mode and the summary are JSON values; the call
  raises \<^verbatim>\<open>TypeError\<close> when an entry of \<^verbatim>\<open>docs\<close> holds a value that is none, such as
  a numpy score.
\<close>

definition json_dumps :: "env \<Rightarrow> answer \<Rightarrow> error + answer" where
  "json_dumps E resp =
     (if list_all (serializable E) (ans_docs resp) then Inr resp else Inl TypeError)"

text \<open>
  The body of the \<^verbatim>\<open>try\<close> block. It returns the response or the exception raised,
  and the globals as the block leaves them.
\<close>

definition handler_try :: "env \<Rightarrow> request \<Rightarrow> globals \<Rightarrow> (error + response) \<times> globals" where
  "handler_try E req g =
     (if req_method req = ''OPTIONS'' then (Inr \<lparr>status = 200, body = NoBody\<rparr>, g)
      else
        let body_text = (if get_data req \<noteq> [] then get_data req else ''{}'') in
        case json_loads E body_text of
          Inl e \<Rightarrow> (Inl e, g)
        | Inr data \<Rightarrow>
        (case py_get data ''apiKey'' JNull of
          Inl e \<Rightarrow> (Inl e, g)
        | Inr api_key \<Rightarrow>
        let g1 = g\<lparr>KEY_OVERRIDE := py_or api_key JNull\<rparr> in
        (case py_get data ''messages'' (JArr []) of
          Inl e \<Rightarrow> (Inl e, g1)
        | Inr messages \<Rightarrow>
        (case request_query data messages of
          Inl e \<Rightarrow> (Inl e, g1)
        | Inr query \<Rightarrow>
        (case graph_invoke E g1 query of
          Inl e \<Rightarrow> (Inl e, g1)
        | Inr result \<Rightarrow>
        (case fst (summarize_history E g1 messages) of
          Inl e \<Rightarrow> (Inl e, g1)
        | Inr memory_summary \<Rightarrow>
        (case json_dumps E
                \<lparr>ans_intent = st_intent result,
                 ans_mode = st_mode result,
                 ans_docs = map (shape_doc (st_scores result)) (enumerate 0 (st_docs result)),
                 ans_memory_summary = memory_summary\<rparr> of
          Inl e \<Rightarrow> (Inl e, g1)
        | Inr resp \<Rightarrow> (Inr \<lparr>status = 200, body = Answer resp\<rparr>, g1))))))))"

text \<open>
  \<^verbatim>\<open>except Exception\<close> turns an exception into a response with status 500;
  \<^verbatim>\<open>finally\<close> resets the override on every path.
\<close>

definition handler :: "env \<Rightarrow> request \<Rightarrow> globals \<Rightarrow> response \<times> globals" where
  "handler E req g =
     (case handler_try E req g of
        (Inr resp, g') \<Rightarrow> (resp, g'\<lparr>KEY_OVERRIDE := JNull\<rparr>)
      | (Inl e, g') \<Rightarrow> (\<lparr>status = 500, body = Failure e\<rparr>, g'\<lparr>KEY_OVERRIDE := JNull\<rparr>))"

section \<open>The retriever as the specification words it\<close>

text \<open>
  The specification describes retrieval as one pipeline: the collections selected by
  the intent, the candidates each one contributes to a request for \<open>2k\<close> neighbours
  (none when it is unavailable), their concatenation, the sort by distance and the first
  \<open>k\<close>. These definitions follow its words; the theorems compare them with
  \<open>retrieve\<close>.
\<close>

definition selected_collections :: "string \<Rightarrow> string list" where
  "selected_collections intent =
     (if intent = ''nec'' then [''nec'']
      else if intent = ''wattmonk'' then [''wattmonk'']
      else [''nec'', ''wattmonk''])"

definition contribution :: "env \<Rightarrow> globals \<Rightarrow> json \<Rightarrow> int \<Rightarrow> string \<Rightarrow> (Document \<times> real) list" where
  "contribution E g q k name =
     (case load_vs E g name of
        Inr (Some vs) \<Rightarrow> (case vs q (2 * k) of Inl e \<Rightarrow> [] | Inr found \<Rightarrow> found)
      | _ \<Rightarrow> [])"

definition fused_candidates :: "env \<Rightarrow> globals \<Rightarrow> json \<Rightarrow> string \<Rightarrow> int \<Rightarrow> (Document \<times> real) list" where
  "fused_candidates E g q intent k =
     sort_key snd (concat (map (contribution E g q k) (selected_collections intent)))"


text \<open>
  The exception that leaves \<^verbatim>\<open>load_vs\<close> for the first selected collection where the
  embeddings constructor raises, if there is one.
\<close>

definition load_failure :: "env \<Rightarrow> globals \<Rightarrow> string \<Rightarrow> error option" where
  "load_failure E g intent =
     (case List.map_filter
             (\<lambda>name. case load_vs E g name of Inl e \<Rightarrow> Some e | Inr v \<Rightarrow> None)
             (selected_collections intent) of
        [] \<Rightarrow> None
      | e # es \<Rightarrow> Some e)"

section \<open>Example environments\<close>

definition doc_a :: Document where
  "doc_a = \<lparr>page_content = ''Article 250 covers grounding and bonding.'',
            metadata = [(''source'', JStr ''nec.pdf'')]\<rparr>"

definition doc_b :: Document where
  "doc_b = \<lparr>page_content = ''Article 210 covers branch circuits.'',
            metadata = [(''file'', JStr ''nec.pdf'')]\<rparr>"

definition doc_c :: Document where
  "doc_c = \<lparr>page_content = ''Wattmonk turnaround is 24 hours.'', metadata = []\<rparr>"

text \<open>
  Indexes that answer a request for \<open>k\<close> neighbours with at most \<open>k\<close> results and raise
  when \<open>k\<close> is not positive. The distances \<open>1/4\<close>, \<open>1\<close> and \<open>3\<close> are floats; their
  scores are \<open>0.8\<close> (the float \<open>3602879701896397 / 4503599627370496\<close>), \<open>0.5\<close> and
  \<open>0.25\<close>.
\<close>

definition vs_nec :: vstore where
  "vs_nec q k =
     (if k \<le> 0 then Inl SearchError else Inr (take (nat k) [(doc_a, 1 / 4), (doc_b, 3)]))"

definition vs_wm :: vstore where
  "vs_wm q k = (if k \<le> 0 then Inl SearchError else Inr (take (nat k) [(doc_c, 1)]))"

text \<open>An index with an inner-product metric may return negative values.\<close>

definition vs_signed :: vstore where
  "vs_signed q k =
     (if k \<le> 0 then Inl SearchError
      else Inr (take (nat k) [(doc_b, 0), (doc_a, - 2), (doc_c, 5)]))"

definition vs_down :: vstore where
  "vs_down q k = Inl SearchError"

text \<open>
  The embeddings constructor of the example accepts a string as key and raises on any
  other value.
\<close>

definition ex_env :: env where
  "ex_env =
     \<lparr>path_exists = (\<lambda>name. name = ''nec'' \<or> name = ''wattmonk''),
      make_embeddings = (\<lambda>key. case key of JStr s \<Rightarrow> Inr (Embeddings key)
                                  | _ \<Rightarrow> Inl ValidationError),
      load_local = (\<lambda>name emb. if name = ''nec'' then Inr vs_nec
                                else if name = ''wattmonk'' then Inr vs_wm
                                else Inl LoadError),
      GOOGLE_API_KEY = JStr ''env-key'',
      ENABLE_MEMORY_SUMMARY = True,
      model_invoke = (\<lambda>prompt. Inr (JStr ''a summary'')),
      py_str = (\<lambda>v. case v of JStr s \<Rightarrow> s | _ \<Rightarrow> ''None''),
      json_loads = (\<lambda>s. if s = ''{}'' then Inr (JObj [])
                         else if s = ''{apiKey: k1}'' then Inr (JObj [(''apiKey'', JStr ''k1'')])
                         else if s = ''{apiKey: k1, messages: 5}''
                           then Inr (JObj [(''apiKey'', JStr ''k1''), (''messages'', JNum 5)])
                         else if s = ''{apiKey: true}''
                           then Inr (JObj [(''apiKey'', JBool True)])
                         else if s = ''[1, 2]'' then Inr (JArr [JNum 1, JNum 2])
                         else Inl JSONDecodeError),
      serializable = (\<lambda>d. True)\<rparr>"

text \<open>Variants: signed distances, and collections that fail.\<close>

definition signed_env :: env where
  "signed_env = ex_env\<lparr>load_local := (\<lambda>name emb. Inr vs_signed)\<rparr>"

definition down_env :: env where
  "down_env = ex_env\<lparr>path_exists := (\<lambda>name. name = ''wattmonk''),
                      load_local := (\<lambda>name emb. Inl LoadError)\<rparr>"

definition raising_env :: env where
  "raising_env = ex_env\<lparr>load_local := (\<lambda>name emb. Inr vs_down)\<rparr>"

text \<open>An environment whose scores are numpy values, which \<^verbatim>\<open>json.dumps\<close> refuses.\<close>

definition numpy_env :: env where
  "numpy_env = ex_env\<lparr>serializable := (\<lambda>d. False)\<rparr>"

definition silent_env :: env where
  "silent_env = ex_env\<lparr>model_invoke := (\<lambda>prompt. Inl InvokeError)\<rparr>"

definition user_msg :: json where
  "user_msg = JObj [(''role'', JStr ''user''), (''content'', JStr ''hi'')]"

definition g0 :: globals where
  "g0 = \<lparr>KEY_OVERRIDE = JNull\<rparr>"

section \<open>Properties of the classifier\<close>

lemma py_in_iff: "py_in k s \<longleftrightarrow> (\<exists>pre post. s = pre @ k @ post)"
proof (induction s)
  case Nil
  then show ?case by auto
next
  case (Cons c cs)
  show ?case
  proof
    assume "py_in k (c # cs)"
    then consider "prefix k (c # cs)" | "py_in k cs" by auto
    then show "\<exists>pre post. c # cs = pre @ k @ post"
    proof cases
      case 1
      then obtain post where "c # cs = k @ post" by (auto simp: prefix_def)
      then have "c # cs = [] @ k @ post" by simp
      then show ?thesis by blast
    next
      case 2
      with Cons.IH obtain pre post where "cs = pre @ k @ post" by blast
      then have "c # cs = (c # pre) @ k @ post" by simp
      then show ?thesis by blast
    qed
  next
    assume "\<exists>pre post. c # cs = pre @ k @ post"
    then obtain pre post where eq: "c # cs = pre @ k @ post" by blast
    show "py_in k (c # cs)"
    proof (cases pre)
      case Nil
      with eq have "prefix k (c # cs)" by (simp add: prefix_def)
      then show ?thesis by simp
    next
      case (Cons p ps)
      with eq have "cs = ps @ k @ post" by simp
      with Cons.IH have "py_in k cs" by blast
      then show ?thesis by simp
    qed
  qed
qed

lemma lowered_JStr: "lowered (JStr s) = Inr (lower s)"
  by (cases s) (simp_all add: lowered_def py_or_def lower_def)

lemma classify_nec_if:
  "k \<in> set nec_keywords \<Longrightarrow> py_in k (lower s) \<Longrightarrow> classify_intent (JStr s) = Inr ''nec''"
  by (auto simp: classify_intent_def lowered_JStr list_ex_iff)

text \<open>
  C1. A query string that contains a regulatory keyword, written in any mix of upper and
  lower case (\<open>kw\<close> lowers to the keyword \<open>k\<close>) and with any text before and after it,
  is classified \<^verbatim>\<open>nec\<close>. The surrounding text is arbitrary, so it may hold keywords of
  the other list: the regulatory list is checked first.
\<close>

theorem classify_intent_regulatory:
  assumes "k \<in> set nec_keywords" and "lower kw = k"
  shows "classify_intent (JStr (pre @ kw @ post)) = Inr ''nec''"
proof -
  have "lower (pre @ kw @ post) = lower pre @ k @ lower post"
    using assms(2) by (simp add: lower_def)
  then have "py_in k (lower (pre @ kw @ post))"
    unfolding py_in_iff by blast
  with assms(1) show ?thesis by (rule classify_nec_if)
qed

theorem classify_intent_regulatory_witness:
  "'' nec '' \<in> set nec_keywords \<and> lower '' NEC '' = '' nec '' \<and>
   classify_intent (JStr ''What does NEC Article 250 say about Wattmonk pricing?'') = Inr ''nec''"
  using classify_intent_regulatory
    [of "'' nec ''" "'' NEC ''" "''What does''" "''Article 250 say about Wattmonk pricing?''"]
  by (simp add: nec_keywords_def lower_def lower_char_def)

section \<open>Properties of the mode decider\<close>

lemma py_max_Max: "fold (\<lambda>y m. if m < y then y else m) xs (x::real) = Max (set (x # xs))"
proof -
  have "(\<lambda>y m. if m < y then y else m) = (max :: real \<Rightarrow> real \<Rightarrow> real)"
    by (auto simp: fun_eq_iff max_def)
  then show ?thesis by (simp only: Max.set_eq_fold)
qed

lemma max_s_Max: "max_s scores = (if scores = [] then 0 else Max (set scores))"
  by (cases scores) (simp_all add: py_max_Max)

lemma decide_mode_Nil: "decide_mode [] intent = ''general''"
  by (simp add: decide_mode_def)

text \<open>
  C2. \<^verbatim>\<open>decide_mode\<close> answers \<^verbatim>\<open>rag\<close> exactly when the maximum score, taken as 0 for
  an empty list, is strictly above the threshold of the intent: 0.25 for \<^verbatim>\<open>nec\<close> and
  \<^verbatim>\<open>wattmonk\<close>, 0.7 for every other intent. Otherwise it answers \<^verbatim>\<open>general\<close>; so do
  an empty list and a maximum equal to the threshold.
\<close>

theorem decide_mode_threshold:
  "decide_mode scores intent =
     (if (if intent = ''nec'' \<or> intent = ''wattmonk'' then 0.25 else 0.7)
           < (if scores = [] then 0 else Max (set scores))
      then ''rag'' else ''general'')"
  unfolding decide_mode_def max_s_Max by auto

theorem decide_mode_threshold_witness:
  "decide_mode [0.1, 0.25] ''nec'' = ''general'' \<and> decide_mode [0.7, 0.3] ''general'' = ''general''
   \<and> decide_mode [] ''wattmonk'' = ''general'' \<and> decide_mode [0.3, 0.26] ''wattmonk'' = ''rag''
   \<and> decide_mode [0.3, 0.26] ''other'' = ''general'' \<and> decide_mode [0.3, 0.71] ''other'' = ''rag''"
  using decide_mode_threshold [of "[0.1, 0.25]" "''nec''"]
    decide_mode_threshold [of "[0.7, 0.3]" "''general''"]
    decide_mode_threshold [of "[]" "''wattmonk''"]
    decide_mode_threshold [of "[0.3, 0.26]" "''wattmonk''"]
    decide_mode_threshold [of "[0.3, 0.26]" "''other''"]
    decide_mode_threshold [of "[0.3, 0.71]" "''other''"]
  by simp

section \<open>Properties of the floating-point arithmetic\<close>

lemma two_powi_Suc: "(2::real) powi (e + 1) = 2 * 2 powi e"
  using power_int_add [of "2::real" e 1] by simp

lemma two_powi_less_D: "(2::real) powi a < 2 powi b \<Longrightarrow> a < b"
proof (rule ccontr)
  assume l: "(2::real) powi a < 2 powi b" and "\<not> a < b"
  then have "b \<le> a" by simp
  then have "(2::real) powi b \<le> 2 powi a" by (intro power_int_increasing) simp_all
  with l show False by simp
qed

lemma two_powi_int: "0 \<le> n \<Longrightarrow> (2::real) powi n = of_int (2 ^ nat n)"
  by (simp add: power_int_def)

lemma expo_up_bounds: "1 \<le> x \<Longrightarrow> 2 powi expo_up x \<le> x \<and> x < 2 powi (expo_up x + 1)"
proof (induction x rule: expo_up.induct)
  case (1 x)
  show ?case
  proof (cases "x < 2")
    case True
    then have "expo_up x = 0" by (subst expo_up.simps) simp
    with True "1.prems" show ?thesis by simp
  next
    case False
    then have "1 \<le> x / 2" by simp
    with False "1.IH" have "2 powi expo_up (x / 2) \<le> x / 2"
      and "x / 2 < 2 powi (expo_up (x / 2) + 1)"
      by blast+
    moreover have "expo_up x = expo_up (x / 2) + 1"
      using False by (subst expo_up.simps) simp
    ultimately show ?thesis
      using two_powi_Suc [of "expo_up (x / 2)"] two_powi_Suc [of "expo_up (x / 2) + 1"]
      by simp
  qed
qed

lemma expo_down_bounds:
  "0 < x \<Longrightarrow> x < 1 \<Longrightarrow> 2 powi expo_down x \<le> x \<and> x < 2 powi (expo_down x + 1)"
proof (induction x rule: expo_down.induct)
  case (1 x)
  from "1.prems" have e: "expo_down x = expo_down (2 * x) - 1"
    by (subst expo_down.simps) simp
  show ?case
  proof (cases "2 * x < 1")
    case True
    with "1.prems" "1.IH" have "2 powi expo_down (2 * x) \<le> 2 * x"
      and "2 * x < 2 powi (expo_down (2 * x) + 1)"
      by simp_all
    then show ?thesis
      unfolding e
      using two_powi_Suc [of "expo_down (2 * x) - 1"] two_powi_Suc [of "expo_down (2 * x)"]
      by simp
  next
    case False
    then have "expo_down (2 * x) = 0" by (subst expo_down.simps) simp
    with e have "expo_down x = - 1" by simp
    with False "1.prems" show ?thesis by simp
  qed
qed

lemma expo_bounds: "0 < x \<Longrightarrow> 2 powi expo x \<le> x \<and> x < 2 powi (expo x + 1)"
  using expo_up_bounds [of x] expo_down_bounds [of x] by (cases "1 \<le> x") (simp_all add: expo_def)

lemma expo_unique:
  assumes "0 < x" and "2 powi e \<le> x" and "x < 2 powi (e + 1)"
  shows "expo x = e"
proof -
  from expo_bounds [OF assms(1)] assms(2,3)
  have "(2::real) powi e < 2 powi (expo x + 1)" and "(2::real) powi expo x < 2 powi (e + 1)"
    by linarith+
  then have "e < expo x + 1" and "expo x < e + 1" by (auto dest: two_powi_less_D)
  then show ?thesis by simp
qed

lemma expo_mono:
  assumes "0 < x" and "x \<le> y"
  shows "expo x \<le> expo y"
proof -
  from assms have "0 < y" by simp
  from expo_bounds [OF assms(1)] expo_bounds [OF this] assms(2)
  have "(2::real) powi expo x < 2 powi (expo y + 1)" by linarith
  then have "expo x < expo y + 1" by (rule two_powi_less_D)
  then show ?thesis by simp
qed

lemma round_even_range: "\<lfloor>x\<rfloor> \<le> round_even x \<and> round_even x \<le> \<lfloor>x\<rfloor> + 1"
  by (simp add: round_even_def Let_def)

lemma round_even_of_int: "round_even (of_int n) = n"
  by (simp add: round_even_def)

lemma round_even_ge:
  assumes "of_int n \<le> x"
  shows "n \<le> round_even x"
proof -
  from assms have "n \<le> \<lfloor>x\<rfloor>" by (simp add: le_floor_iff)
  with round_even_range [of x] show ?thesis by linarith
qed

lemma round_even_le:
  assumes "x \<le> of_int n"
  shows "round_even x \<le> n"
proof (cases "x = of_int n")
  case True
  then show ?thesis by (simp add: round_even_of_int)
next
  case False
  with assms have "x < of_int n" by simp
  then have "\<lfloor>x\<rfloor> < n" by (simp add: floor_less_iff)
  with round_even_range [of x] show ?thesis by simp
qed

lemma round_even_mono:
  assumes "x \<le> y"
  shows "round_even x \<le> round_even y"
proof (cases "\<lfloor>x\<rfloor> = \<lfloor>y\<rfloor>")
  case True
  with assms show ?thesis by (auto simp: round_even_def Let_def)
next
  case False
  moreover from assms have "\<lfloor>x\<rfloor> \<le> \<lfloor>y\<rfloor>" by (rule floor_mono)
  ultimately have "\<lfloor>x\<rfloor> + 1 \<le> \<lfloor>y\<rfloor>" by simp
  with round_even_range [of x] round_even_range [of y] show ?thesis by simp
qed

lemma ulp_exp_mono: "0 < x \<Longrightarrow> x \<le> y \<Longrightarrow> ulp_exp x \<le> ulp_exp y"
  using expo_mono [of x y] by (simp add: ulp_exp_def)

lemma fl_nonneg:
  assumes "0 \<le> x"
  shows "0 \<le> fl x"
proof -
  have "of_int 0 \<le> x / 2 powi ulp_exp x" using assms by simp
  then have "0 \<le> round_even (x / 2 powi ulp_exp x)" by (rule round_even_ge)
  then show ?thesis by (simp add: fl_def)
qed

text \<open>
  Rounding keeps the order of positive numbers. Where the spacing at \<open>x\<close> and at \<open>y\<close>
  is the same, this is the order of the rounded significands; otherwise the power of two
  below \<open>y\<close> is a float between \<open>x\<close> and \<open>y\<close>.
\<close>

lemma fl_mono_pos:
  assumes "0 < x" and "x \<le> y"
  shows "fl x \<le> fl y"
proof -
  from assms have y: "0 < y" by simp
  let ?qx = "ulp_exp x" and ?qy = "ulp_exp y"
  have fx: "fl x = of_int (round_even (x / 2 powi ?qx)) * 2 powi ?qx"
    and fy: "fl y = of_int (round_even (y / 2 powi ?qy)) * 2 powi ?qy"
    using assms y by (simp_all add: fl_def)
  have q: "?qx \<le> ?qy" using assms by (rule ulp_exp_mono)
  show ?thesis
  proof (cases "?qx = ?qy")
    case True
    have "x / 2 powi ?qy \<le> y / 2 powi ?qy"
      using assms(2) by (simp add: divide_right_mono)
    then have "round_even (x / 2 powi ?qy) \<le> round_even (y / 2 powi ?qy)"
      by (rule round_even_mono)
    then show ?thesis unfolding fx fy True
      by (simp add: mult_right_mono)
  next
    case False
    with q have lt: "?qx < ?qy" by simp
    then have qy: "?qy = expo y - 52" using y by (simp add: ulp_exp_def max_def split: if_splits)
    let ?B = "(2::real) powi expo y"
    have "expo x - 52 \<le> ?qx" using assms by (simp add: ulp_exp_def)
    with lt qy have ex: "expo x + 1 \<le> expo y" by simp
    have "x < 2 powi (expo x + 1)" using expo_bounds [OF assms(1)] by simp
    also have "\<dots> \<le> ?B" using ex by (intro power_int_increasing) simp_all
    finally have xB: "x < ?B" .
    have By: "?B \<le> y" using expo_bounds [OF y] by simp
    have "fl x \<le> ?B"
    proof -
      have d: "0 \<le> expo y - ?qx" using lt qy by simp
      have "?B = 2 powi (expo y - ?qx) * 2 powi ?qx"
        using power_int_add [of "2::real" "expo y - ?qx" ?qx] by simp
      also have "(2::real) powi (expo y - ?qx) = of_int (2 ^ nat (expo y - ?qx))"
        by (rule two_powi_int [OF d])
      finally have B: "?B = of_int (2 ^ nat (expo y - ?qx)) * 2 powi ?qx" .
      have "x / 2 powi ?qx \<le> ?B / 2 powi ?qx"
        using xB by (simp add: divide_right_mono)
      also have "?B / 2 powi ?qx = of_int (2 ^ nat (expo y - ?qx))"
        by (subst B) simp
      finally have "round_even (x / 2 powi ?qx) \<le> 2 ^ nat (expo y - ?qx)"
        by (rule round_even_le)
      then have "of_int (round_even (x / 2 powi ?qx)) \<le> (of_int (2 ^ nat (expo y - ?qx)) :: real)"
        by (simp only: of_int_le_iff)
      then have "fl x \<le> of_int (2 ^ nat (expo y - ?qx)) * 2 powi ?qx"
        unfolding fx by (rule mult_right_mono) simp
      with B show ?thesis by simp
    qed
    moreover have "?B \<le> fl y"
    proof -
      have "?B = 2 powi 52 * 2 powi ?qy"
        using power_int_add [of "2::real" 52 ?qy] by (simp add: qy)
      then have B: "?B = of_int (2 ^ 52) * 2 powi ?qy" by simp
      have "?B / 2 powi ?qy \<le> y / 2 powi ?qy"
        using By by (simp add: divide_right_mono)
      moreover have "?B / 2 powi ?qy = of_int (2 ^ 52)"
        by (subst B) simp
      ultimately have "of_int (2 ^ 52) \<le> y / 2 powi ?qy" by simp
      then have "2 ^ 52 \<le> round_even (y / 2 powi ?qy)"
        by (rule round_even_ge)
      then have "(of_int (2 ^ 52) :: real) \<le> of_int (round_even (y / 2 powi ?qy))"
        by (simp only: of_int_le_iff)
      then have "of_int (2 ^ 52) * 2 powi ?qy \<le> fl y"
        unfolding fy by (rule mult_right_mono) simp
      with B show ?thesis by simp
    qed
    ultimately show ?thesis by simp
  qed
qed

lemmas fl_eval = fl_def ulp_exp_def expo_def round_even_def expo_up.simps expo_down.simps

lemma fl_0: "fl 0 = 0"
  by (simp add: fl_def)

lemma fl_1: "fl 1 = 1"
  by (simp add: fl_eval)

lemma fl_half: "fl (1 / 2) = 1 / 2"
  by (simp add: fl_eval)

lemma fl_tiny: "fl (1 / 2 ^ 53) = 1 / 2 ^ 53"
proof -
  have "expo (1 / 2 ^ 53) = - 53"
    by (rule expo_unique) simp_all
  then have "ulp_exp (1 / 2 ^ 53) = - 105"
    by (simp add: ulp_exp_def)
  then show ?thesis
    by (simp add: fl_def round_even_def)
qed

text \<open>Between \<open>-1\<close> and \<open>-1/2\<close> the floats are the multiples of \<open>2 powi (-53)\<close>.\<close>

lemma float_above_minus_one:
  assumes "is_float d" and "- 1 < d" and "d < - 1 / 2"
  shows "- 1 + 1 / 2 ^ 53 \<le> d"
proof -
  from assms have "expo \<bar>d\<bar> = - 1"
    by (intro expo_unique) simp_all
  then have u: "ulp_exp d = - 53" by (simp add: ulp_exp_def)
  define n where "n = round_even (d / 2 powi (- 53))"
  from assms(1,3) u have d: "d = of_int n / 2 ^ 53"
    by (simp add: is_float_def fl_def n_def split: if_splits)
  with assms(2) have "- (2 ^ 53) < (of_int n :: real)" by simp
  then have "of_int (- (2 ^ 53)) < (of_int n :: real)" by simp
  then have "- (2 ^ 53) < n" by (simp only: of_int_less_iff)
  then have "- (2 ^ 53) + 1 \<le> n" by simp
  then have "(of_int (- (2 ^ 53) + 1) :: real) \<le> of_int n" by (simp only: of_int_le_iff)
  then show ?thesis by (subst d) (simp add: field_simps)
qed

lemma fl_one_plus_pos:
  assumes "is_float d" and "- 1 < d"
  shows "0 < fl (1 + d)"
proof (cases "d < - 1 / 2")
  case True
  with assms have "1 / 2 ^ 53 \<le> 1 + d"
    using float_above_minus_one [of d] by simp
  then have "fl (1 / 2 ^ 53) \<le> fl (1 + d)"
    by (intro fl_mono_pos) simp_all
  then show ?thesis using fl_tiny by simp
next
  case False
  then have "1 / 2 \<le> 1 + d" by simp
  then have "fl (1 / 2) \<le> fl (1 + d)"
    by (intro fl_mono_pos) simp_all
  then show ?thesis by (simp add: fl_half)
qed

lemma score_0: "score 0 = Inr 1"
  by (simp add: score_def fl_1)

lemma score_defined:
  assumes "is_float d" and "- 1 < d"
  shows "score d = Inr (fl (1 / fl (1 + d)))"
  using fl_one_plus_pos [OF assms] by (simp add: score_def Let_def)

text \<open>The scores of two distances above \<open>-1\<close> are in the opposite order, weakly.\<close>

lemma score_antitone:
  assumes "- 1 < d1" and "d1 \<le> d2" and "score d1 = Inr a" and "score d2 = Inr b"
  shows "b \<le> a"
proof -
  let ?y1 = "fl (1 + d1)" and ?y2 = "fl (1 + d2)"
  from assms(3) have n1: "?y1 \<noteq> 0" and a: "a = fl (1 / ?y1)"
    by (auto simp: score_def Let_def split: if_splits)
  from assms(4) have b: "b = fl (1 / ?y2)"
    by (auto simp: score_def Let_def split: if_splits)
  from assms(1) have "0 \<le> ?y1" by (intro fl_nonneg) simp
  with n1 have p1: "0 < ?y1" by simp
  from assms(1,2) have "?y1 \<le> ?y2" by (intro fl_mono_pos) simp_all
  with p1 have "0 < 1 / ?y2" and "1 / ?y2 \<le> 1 / ?y1"
    by (simp_all add: frac_le)
  then have "fl (1 / ?y2) \<le> fl (1 / ?y1)" by (rule fl_mono_pos)
  with a b show ?thesis by simp
qed

text \<open>
  The literal \<^verbatim>\<open>0.7\<close> is the float nearest to \<open>7/10\<close>, which lies below it. A float
  exceeds the one when it exceeds the other.
\<close>

lemma literal_threshold:
  assumes "is_float x"
  shows "fl (7 / 10) < x \<longleftrightarrow> 7 / 10 < x"
proof
  have v: "fl (7 / 10) = 3152519739159347 / 4503599627370496"
    by (simp add: fl_eval)
  {
    assume a: "fl (7 / 10) < x"
    show "7 / 10 < x"
    proof (rule ccontr)
      assume "\<not> 7 / 10 < x"
      then have "x \<le> 7 / 10" by simp
      moreover from a have "0 < x" unfolding v by simp
      ultimately have "fl x \<le> fl (7 / 10)" by (intro fl_mono_pos)
      with assms a show False by (simp add: is_float_def)
    qed
  next
    assume "7 / 10 < x"
    then show "fl (7 / 10) < x" unfolding v by simp
  }
qed

section \<open>Properties of the score transform\<close>

text \<open>
  C5, as the code has it. The transform is not strictly decreasing: the float distances
  \<open>0\<close> and \<open>2 powi (-60)\<close> both get the score \<open>1\<close>, since \<^verbatim>\<open>1.0 + 2**-60\<close> rounds to
  \<open>1\<close>. Nor is it decreasing on all floats: the distances \<open>-2 < 0\<close> get the scores \<open>-1\<close>
  and \<open>1\<close>.
\<close>

theorem score_not_strictly_decreasing:
  "is_float 0 \<and> is_float (1 / 2 ^ 60) \<and> (0::real) < 1 / 2 ^ 60
   \<and> score 0 = Inr 1 \<and> score (1 / 2 ^ 60) = Inr 1
   \<and> is_float (- 2) \<and> (- 2 :: real) < 0 \<and> score (- 2) = Inr (- 1)"
  by (simp add: is_float_def score_def fl_eval)

text \<open>
  C5, amended. For float distances above \<open>-1\<close>, so for every non-negative distance, the
  score is defined and weakly decreasing in the distance: a greater distance never gets a
  greater score, and rounding can make the two scores equal. The score of distance 0 is
  1.
\<close>

theorem score_non_increasing:
  assumes "is_float d1" and "- 1 < d1" and "d1 < d2"
  shows "score d1 = Inr (fl (1 / fl (1 + d1))) \<and> score d2 = Inr (fl (1 / fl (1 + d2)))
         \<and> fl (1 / fl (1 + d2)) \<le> fl (1 / fl (1 + d1)) \<and> score 0 = Inr 1"
proof -
  have s1: "score d1 = Inr (fl (1 / fl (1 + d1)))"
    using assms(1,2) by (rule score_defined)
  have "0 < fl (1 + d1)" using assms(1,2) by (rule fl_one_plus_pos)
  moreover have "fl (1 + d1) \<le> fl (1 + d2)"
    using assms(2,3) by (intro fl_mono_pos) simp_all
  ultimately have "fl (1 + d2) \<noteq> 0" by simp
  then have s2: "score d2 = Inr (fl (1 / fl (1 + d2)))"
    by (simp add: score_def Let_def)
  have "d1 \<le> d2" using assms(3) by simp
  with assms(2) have "fl (1 / fl (1 + d2)) \<le> fl (1 / fl (1 + d1))"
    using s1 s2 by (rule score_antitone)
  with s1 s2 score_0 show ?thesis by simp
qed

theorem score_non_increasing_witness:
  "is_float (1 / 4) \<and> (- 1 :: real) < 1 / 4 \<and> (1 / 4 :: real) < 1
   \<and> score (1 / 4) = Inr (3602879701896397 / 4503599627370496) \<and> score 1 = Inr (1 / 2)
   \<and> (1 / 2 :: real) \<le> 3602879701896397 / 4503599627370496 \<and> score 0 = Inr 1"
proof -
  have h1: "is_float (1 / 4)" by (simp add: is_float_def fl_eval)
  have h2: "(- 1 :: real) < 1 / 4" and h3: "(1 / 4 :: real) < 1" by simp_all
  have e1: "fl (1 / fl (1 + 1 / 4)) = 3602879701896397 / 4503599627370496"
    and e2: "fl (1 / fl (1 + 1)) = 1 / 2"
    by (simp_all add: fl_eval)
  from score_non_increasing [OF h1 h2 h3] h1 show ?thesis
    unfolding e1 e2 by simp
qed

section \<open>Properties of the retriever\<close>

lemma scores_of_length: "scores_of cs = Inr xs \<Longrightarrow> length xs = length cs"
  by (induction cs arbitrary: xs rule: scores_of.induct) (auto split: sum.splits)

lemma scores_of_Inl: "scores_of cs = Inl e \<Longrightarrow> e = ZeroDivisionError"
  by (induction cs rule: scores_of.induct)
     (auto simp: score_def Let_def split: sum.splits if_splits)

lemma scores_of_member:
  "scores_of cs = Inr xs \<Longrightarrow> x \<in> set xs \<Longrightarrow> \<exists>c \<in> set cs. score (snd c) = Inr x"
proof (induction cs arbitrary: xs rule: scores_of.induct)
  case 1
  then show ?case by simp
next
  case (2 d s cs)
  from "2.prems"(1) obtain a ys where a: "score s = Inr a" and ys: "scores_of cs = Inr ys"
    and xs: "xs = a # ys"
    by (auto split: sum.splits)
  from "2.prems"(2) xs consider "x = a" | "x \<in> set ys" by auto
  then show ?case
  proof cases
    case 1
    with a show ?thesis by simp
  next
    case 2
    with "2.IH" [OF a ys] show ?thesis by auto
  qed
qed

lemma scores_of_defined:
  "\<forall>c \<in> set cs. is_float (snd c) \<and> - 1 < snd c \<Longrightarrow> \<exists>xs. scores_of cs = Inr xs"
  by (induction cs rule: scores_of.induct) (auto simp: score_defined)

text \<open>Ascending distances above \<open>-1\<close> give scores in non-increasing order.\<close>

lemma scores_of_sorted:
  assumes "sorted (map snd cs)" and "\<forall>c \<in> set cs. - 1 < snd c" and "scores_of cs = Inr xs"
  shows "sorted_wrt (\<ge>) xs"
  using assms
proof (induction cs arbitrary: xs rule: scores_of.induct)
  case 1
  then show ?case by simp
next
  case (2 d s cs)
  from "2.prems"(3) obtain a ys where a: "score s = Inr a" and ys: "scores_of cs = Inr ys"
    and xs: "xs = a # ys"
    by (auto split: sum.splits)
  have "y \<le> a" if "y \<in> set ys" for y
  proof -
    from scores_of_member [OF ys that] obtain c where c: "c \<in> set cs"
      and y: "score (snd c) = Inr y" by blast
    from "2.prems"(1) c have l: "s \<le> snd c" by auto
    from "2.prems"(2) have "- 1 < s" by simp
    then show ?thesis using l a y by (rule score_antitone)
  qed
  moreover have "sorted_wrt (\<ge>) ys"
    using "2.prems"(1,2) ys a by (intro "2.IH") auto
  ultimately show ?case unfolding xs by auto
qed

lemma py_upto_Nil: "py_upto [] k = []"
  by (simp add: py_upto_def)

lemma set_py_upto: "set (py_upto xs k) \<subseteq> set xs"
  by (auto simp: py_upto_def dest: in_set_takeD)

lemma sorted_py_upto: "sorted (map snd xs) \<Longrightarrow> sorted (map snd (py_upto xs k))"
  by (simp add: py_upto_def take_map [symmetric])

lemma collect_concat:
  "collect pools q k = concat (map (\<lambda>vs. case vs q (k * 2) of Inl e \<Rightarrow> [] | Inr r \<Rightarrow> r) pools)"
  by (induction pools) (auto split: sum.splits)

text \<open>
  \<^verbatim>\<open>select_pools\<close> raises what the first failing \<^verbatim>\<open>load_vs\<close> raises; otherwise the
  candidates it leads to are the contributions of the selected collections.
\<close>

lemma select_pools_failure:
  "load_failure E g hint = Some e \<Longrightarrow> select_pools E g hint = Inl e"
  by (auto simp: load_failure_def select_pools_def selected_collections_def
      List.map_filter_simps split: if_splits sum.splits list.splits)

lemma select_pools_collect:
  assumes "load_failure E g hint = None"
  shows "\<exists>pools. select_pools E g hint = Inr pools
           \<and> collect pools q k
             = concat (map (contribution E g q k) (selected_collections hint))"
  using assms
  by (auto simp: load_failure_def select_pools_def selected_collections_def contribution_def
      List.map_filter_simps append_if_def collect_concat mult.commute
      split: if_splits sum.splits list.splits option.splits)

text \<open>
  The two early returns of \<open>retrieve\<close> agree with its last branch: unless loading raises,
  the result is computed from the slice of the sorted candidates.
\<close>

lemma retrieve_eq:
  "retrieve E g q hint k =
     (case load_failure E g hint of
        Some e \<Rightarrow> Inl e
      | None \<Rightarrow>
          (case scores_of (py_upto (fused_candidates E g q hint k) k) of
             Inl e \<Rightarrow> Inl e
           | Inr scores \<Rightarrow> Inr (map fst (py_upto (fused_candidates E g q hint k) k), scores)))"
proof (cases "load_failure E g hint")
  case (Some e)
  then show ?thesis by (simp add: retrieve_def select_pools_failure)
next
  case None
  from select_pools_collect [OF None, of q k] obtain pools
    where p: "select_pools E g hint = Inr pools"
      and c: "collect pools q k = concat (map (contribution E g q k) (selected_collections hint))"
    by blast
  have f: "fused_candidates E g q hint k = sort_key snd (collect pools q k)"
    by (simp add: fused_candidates_def c)
  show ?thesis
  proof (cases "collect pools q k = []")
    case True
    then show ?thesis
      unfolding f by (simp add: retrieve_def p None Let_def py_upto_Nil)
  next
    case False
    then have "pools \<noteq> []" by auto
    with False show ?thesis
      unfolding f by (simp add: retrieve_def p None Let_def)
  qed
qed

lemma set_fused:
  "set (fused_candidates E g q hint k)
     = (\<Union>name \<in> set (selected_collections hint). set (contribution E g q k name))"
  by (simp add: fused_candidates_def)

lemma sorted_fused: "sorted (map snd (fused_candidates E g q hint k))"
  by (simp add: fused_candidates_def)

lemma fused_all_empty:
  assumes "\<forall>name \<in> set (selected_collections hint). contribution E g q k name = []"
  shows "fused_candidates E g q hint k = []"
proof -
  have c: "concat (map (contribution E g q k) (selected_collections hint)) = []"
    using assms by simp
  show ?thesis unfolding fused_candidates_def c by simp
qed

lemma retrieve_no_candidates:
  assumes "load_failure E g hint = None"
    and "\<forall>name \<in> set (selected_collections hint). contribution E g q k name = []"
  shows "retrieve E g q hint k = Inr ([], [])"
proof -
  have "fused_candidates E g q hint k = []"
    using assms(2) by (rule fused_all_empty)
  then show ?thesis by (simp add: retrieve_eq assms(1) py_upto_Nil)
qed

lemmas ex_eval = ex_env_def g0_def vs_nec_def vs_wm_def retrieve_def select_pools_def
  append_if_def load_vs_def get_key_def py_or_def py_upto_def score_def fl_eval

lemma ex_retrieve:
  "retrieve ex_env g0 (JStr ''grounding'') ''general'' 2
     = Inr ([doc_a, doc_c], [3602879701896397 / 4503599627370496, 1 / 2])"
  by (simp add: ex_eval)


lemma ex_contribution:
  "contribution ex_env g0 (JStr ''grounding'') 2 ''nec'' = [(doc_a, 1 / 4), (doc_b, 3)]"
  "contribution ex_env g0 (JStr ''grounding'') 2 ''wattmonk'' = [(doc_c, 1)]"
  by (simp_all add: contribution_def ex_env_def g0_def vs_nec_def vs_wm_def load_vs_def
      get_key_def py_or_def)

lemma ex_floats: "is_float (1 / 4)" "is_float 1" "is_float 3"
  by (simp_all add: is_float_def fl_eval)

lemma ex_load_failure: "load_failure ex_env g0 ''general'' = None"
  by (simp add: load_failure_def selected_collections_def List.map_filter_simps
      ex_env_def g0_def load_vs_def get_key_def py_or_def)



text \<open>
  C4, as the code has it. An index that returns the distances \<open>0, -2, 5\<close> gives the
  scores \<open>-1, 1\<close> and the float nearest to \<open>1/6\<close>, which are not in non-increasing order;
  and with \<open>k = -1\<close> no index answers, and the empty result has more than \<open>k\<close>
  documents.
\<close>

theorem retrieve_signed_counterexample:
  "retrieve signed_env g0 (JStr ''grounding'') ''nec'' 6
     = Inr ([doc_a, doc_b, doc_c], [- 1, 1, 6004799503160661 / 36028797018963968])
   \<and> \<not> sorted_wrt (\<ge>) [- 1, 1, 6004799503160661 / 36028797018963968 :: real]
   \<and> retrieve signed_env g0 (JStr ''grounding'') ''nec'' (- 1) = Inr ([], [])
   \<and> \<not> int (length ([] :: Document list)) \<le> - 1"
  by (simp add: signed_env_def vs_signed_def ex_eval)

text \<open>
  C4, amended. For \<open>k \<ge> 0\<close>, \<open>retrieve\<close> returns at most \<open>k\<close> documents; when the
  distances of all candidates are above \<open>-1\<close> (so when none is negative), the scores it
  returns are in non-increasing order; and it does return when, besides, the distances
  are floats and loading raises nothing.
\<close>

theorem retrieve_bounded_sorted:
  assumes "0 \<le> k"
  shows "(\<forall>docs scores. retrieve E g q hint k = Inr (docs, scores) \<longrightarrow> int (length docs) \<le> k)
         \<and> ((\<forall>name \<in> set (selected_collections hint).
                \<forall>c \<in> set (contribution E g q k name). - 1 < snd c)
              \<longrightarrow> (\<forall>docs scores. retrieve E g q hint k = Inr (docs, scores)
                     \<longrightarrow> sorted_wrt (\<ge>) scores))
         \<and> ((\<forall>name \<in> set (selected_collections hint).
                \<forall>c \<in> set (contribution E g q k name). - 1 < snd c \<and> is_float (snd c))
              \<and> load_failure E g hint = None
              \<longrightarrow> (\<exists>docs scores. retrieve E g q hint k = Inr (docs, scores)
                     \<and> int (length docs) \<le> k \<and> sorted_wrt (\<ge>) scores))"
proof -
  let ?top = "py_upto (fused_candidates E g q hint k) k"
  have top: "?top = take (nat k) (fused_candidates E g q hint k)"
    using assms by (simp add: py_upto_def)
  have sorted_top: "sorted (map snd ?top)"
    using sorted_fused by (rule sorted_py_upto)
  have len: "int (length docs) \<le> k" if "retrieve E g q hint k = Inr (docs, scores)"
    for docs scores
  proof -
    from that have "docs = map fst ?top"
      by (auto simp: retrieve_eq split: option.splits sum.splits)
    then show ?thesis unfolding top using assms by simp
  qed
  have in_top: "\<exists>name \<in> set (selected_collections hint). c \<in> set (contribution E g q k name)"
    if "c \<in> set ?top" for c
    using that set_py_upto [of "fused_candidates E g q hint k" k] unfolding set_fused by blast
  have ord: "sorted_wrt (\<ge>) scores"
    if dist: "\<forall>name \<in> set (selected_collections hint).
                \<forall>c \<in> set (contribution E g q k name). - 1 < snd c"
      and r: "retrieve E g q hint k = Inr (docs, scores)"
    for docs scores
  proof -
    from r have s: "scores_of ?top = Inr scores"
      by (auto simp: retrieve_eq split: option.splits sum.splits)
    have "\<forall>c \<in> set ?top. - 1 < snd c"
      using in_top dist by blast
    with sorted_top show ?thesis using s by (rule scores_of_sorted)
  qed
  have ret: "\<exists>docs scores. retrieve E g q hint k = Inr (docs, scores)
               \<and> int (length docs) \<le> k \<and> sorted_wrt (\<ge>) scores"
    if dist: "\<forall>name \<in> set (selected_collections hint).
                \<forall>c \<in> set (contribution E g q k name). - 1 < snd c \<and> is_float (snd c)"
      and l: "load_failure E g hint = None"
  proof -
    have "\<forall>c \<in> set ?top. is_float (snd c) \<and> - 1 < snd c"
      using in_top dist by blast
    then obtain scores where "scores_of ?top = Inr scores"
      using scores_of_defined by blast
    then have r: "retrieve E g q hint k = Inr (map fst ?top, scores)"
      by (simp add: retrieve_eq l)
    moreover from dist have "\<forall>name \<in> set (selected_collections hint).
                \<forall>c \<in> set (contribution E g q k name). - 1 < snd c" by blast
    then have "sorted_wrt (\<ge>) scores" using r by (rule ord)
    moreover have "int (length (map fst ?top)) \<le> k" using r by (rule len)
    ultimately show ?thesis by blast
  qed
  from len ord ret show ?thesis by blast
qed

theorem retrieve_bounded_sorted_witness:
  "retrieve ex_env g0 (JStr ''grounding'') ''general'' 2
     = Inr ([doc_a, doc_c], [3602879701896397 / 4503599627370496, 1 / 2])
   \<and> int (length [doc_a, doc_c]) \<le> 2
   \<and> sorted_wrt (\<ge>) [3602879701896397 / 4503599627370496, 1 / 2 :: real]"
proof -
  have h1: "0 \<le> (2::int)" by simp
  have h2: "\<forall>name \<in> set (selected_collections ''general'').
              \<forall>c \<in> set (contribution ex_env g0 (JStr ''grounding'') 2 name).
                - 1 < snd c \<and> is_float (snd c)"
    by (simp add: selected_collections_def ex_contribution ex_floats)
  note t = retrieve_bounded_sorted [OF h1, of ex_env g0 "JStr ''grounding''" "''general''"]
  from t [THEN conjunct2, THEN conjunct2, THEN mp, OF conjI, OF h2 ex_load_failure]
  obtain docs scores
    where r: "retrieve ex_env g0 (JStr ''grounding'') ''general'' 2 = Inr (docs, scores)"
      and l: "int (length docs) \<le> 2" and s: "sorted_wrt (\<ge>) scores"
    by blast
  from r have "docs = [doc_a, doc_c]"
    and "scores = [3602879701896397 / 4503599627370496, 1 / 2]"
    unfolding ex_retrieve by simp_all
  with l s have "int (length [doc_a, doc_c]) \<le> 2"
    and "sorted_wrt (\<ge>) [3602879701896397 / 4503599627370496, 1 / 2 :: real]"
    by simp_all
  with ex_retrieve show ?thesis by (intro conjI)
qed

text \<open>
  C10. Whatever the query, the intent and \<open>k\<close>: when \<open>retrieve\<close> returns, the list of
  documents and the list of scores have the same length. This covers the empty results of
  missing and failing collections. The exceptions that can leave \<open>retrieve\<close> are the
  division by zero of a score and the exception of the embeddings constructor.
\<close>

theorem retrieve_lengths:
  "case retrieve E g q hint k of
     Inl e \<Rightarrow> e = ZeroDivisionError \<or> load_failure E g hint = Some e
   | Inr (docs, scores) \<Rightarrow> length docs = length scores"
proof (cases "load_failure E g hint")
  case (Some e)
  then show ?thesis by (simp add: retrieve_eq)
next
  case None
  show ?thesis
  proof (cases "scores_of (py_upto (fused_candidates E g q hint k) k)")
    case (Inl e)
    then have "e = ZeroDivisionError" by (rule scores_of_Inl)
    with Inl None show ?thesis by (simp add: retrieve_eq)
  next
    case (Inr scores)
    then have "length scores = length (py_upto (fused_candidates E g q hint k) k)"
      by (rule scores_of_length)
    with Inr None show ?thesis by (simp add: retrieve_eq)
  qed
qed

theorem retrieve_lengths_witness:
  "retrieve ex_env g0 (JStr ''grounding'') ''general'' 2
     = Inr ([doc_a, doc_c], [3602879701896397 / 4503599627370496, 1 / 2])
   \<and> length [doc_a, doc_c] = length [3602879701896397 / 4503599627370496, 1 / 2 :: real]"
  using retrieve_lengths [where E = ex_env and g = g0 and q = "JStr ''grounding''"
      and hint = "''general''" and k = 2]
  by (simp add: ex_retrieve)

section \<open>Properties of the conversation summary\<close>

lemma build_prompt_len: "build_prompt E messages = Inr p \<Longrightarrow> \<exists>n. py_len messages = Inr n"
  by (cases messages) (simp_all add: build_prompt_def)

text \<open>
  C9. \<open>summarize_history\<close> returns the empty string and sends nothing to the chat model
  when the feature flag is off, when the history is empty (or any other false value),
  when there is no credential, and when the number of messages is not divisible by 6;
  it returns the empty string when the call to the chat model raises. A prompt is sent
  only when the flag is on, the history is not empty, a credential is present and the
  number of messages is divisible by 6.
\<close>

theorem summarize_history_gates:
  "(\<not> ENABLE_MEMORY_SUMMARY E \<longrightarrow> summarize_history E g messages = (Inr (JStr []), []))
   \<and> (\<not> truthy messages \<longrightarrow> summarize_history E g messages = (Inr (JStr []), []))
   \<and> (\<not> truthy (get_key E g) \<longrightarrow> summarize_history E g messages = (Inr (JStr []), []))
   \<and> (\<forall>n. py_len messages = Inr n \<and> n mod 6 \<noteq> 0
         \<longrightarrow> summarize_history E g messages = (Inr (JStr []), []))
   \<and> (\<forall>prompt e. build_prompt E messages = Inr prompt \<and> model_invoke E prompt = Inl e
         \<longrightarrow> fst (summarize_history E g messages) = Inr (JStr []))
   \<and> (snd (summarize_history E g messages) \<noteq> []
         \<longrightarrow> ENABLE_MEMORY_SUMMARY E \<and> truthy messages \<and> truthy (get_key E g)
             \<and> (\<exists>n. py_len messages = Inr n \<and> n mod 6 = 0))"
proof (intro conjI impI allI)
  assume "\<not> ENABLE_MEMORY_SUMMARY E"
  then show "summarize_history E g messages = (Inr (JStr []), [])"
    by (simp add: summarize_history_def)
next
  assume "\<not> truthy messages"
  then show "summarize_history E g messages = (Inr (JStr []), [])"
    by (simp add: summarize_history_def Let_def)
next
  assume "\<not> truthy (get_key E g)"
  then show "summarize_history E g messages = (Inr (JStr []), [])"
    by (simp add: summarize_history_def Let_def)
next
  fix n assume "py_len messages = Inr n \<and> n mod 6 \<noteq> 0"
  then show "summarize_history E g messages = (Inr (JStr []), [])"
    by (simp add: summarize_history_def Let_def)
next
  fix prompt e
  assume a: "build_prompt E messages = Inr prompt \<and> model_invoke E prompt = Inl e"
  then obtain n where "py_len messages = Inr n" using build_prompt_len by blast
  with a show "fst (summarize_history E g messages) = Inr (JStr [])"
    by (simp add: summarize_history_def Let_def)
next
  assume a: "snd (summarize_history E g messages) \<noteq> []"
  then show "ENABLE_MEMORY_SUMMARY E"
    by (auto simp: summarize_history_def Let_def split: if_splits)
  from a show "truthy messages"
    by (auto simp: summarize_history_def Let_def split: if_splits)
  from a show "truthy (get_key E g)"
    by (auto simp: summarize_history_def Let_def split: if_splits)
  from a show "\<exists>n. py_len messages = Inr n \<and> n mod 6 = 0"
    by (auto simp: summarize_history_def Let_def split: if_splits sum.splits)
qed

theorem summarize_history_gates_witness:
  "summarize_history (ex_env\<lparr>ENABLE_MEMORY_SUMMARY := False\<rparr>) g0 (JArr (replicate 6 user_msg)) = (Inr (JStr []), [])
   \<and> summarize_history ex_env g0 (JArr []) = (Inr (JStr []), [])
   \<and> summarize_history (ex_env\<lparr>GOOGLE_API_KEY := JNull\<rparr>) g0 (JArr (replicate 6 user_msg)) = (Inr (JStr []), [])
   \<and> summarize_history ex_env g0 (JArr (replicate 5 user_msg)) = (Inr (JStr []), [])
   \<and> fst (summarize_history silent_env g0 (JArr (replicate 6 user_msg))) = Inr (JStr [])
   \<and> snd (summarize_history silent_env g0 (JArr (replicate 6 user_msg))) \<noteq> []
   \<and> fst (summarize_history ex_env g0 (JArr (replicate 6 user_msg))) = Inr (JStr ''a summary'')"
proof -
  note t1 = summarize_history_gates [of "ex_env\<lparr>ENABLE_MEMORY_SUMMARY := False\<rparr>" g0 "JArr (replicate 6 user_msg)"]
  note t2 = summarize_history_gates [of ex_env g0 "JArr []"]
  note t3 = summarize_history_gates [of "ex_env\<lparr>GOOGLE_API_KEY := JNull\<rparr>" g0 "JArr (replicate 6 user_msg)"]
  note t4 = summarize_history_gates [of ex_env g0 "JArr (replicate 5 user_msg)"]
  note t5 = summarize_history_gates [of silent_env g0 "JArr (replicate 6 user_msg)"]
  have c1: "summarize_history (ex_env\<lparr>ENABLE_MEMORY_SUMMARY := False\<rparr>) g0 (JArr (replicate 6 user_msg)) = (Inr (JStr []), [])"
    by (rule t1 [THEN conjunct1, THEN mp]) (simp add: silent_env_def ex_env_def g0_def user_msg_def)
  have c2: "summarize_history ex_env g0 (JArr []) = (Inr (JStr []), [])"
    by (rule t2 [THEN conjunct2, THEN conjunct1, THEN mp]) simp
  have c3: "summarize_history (ex_env\<lparr>GOOGLE_API_KEY := JNull\<rparr>) g0 (JArr (replicate 6 user_msg)) = (Inr (JStr []), [])"
    by (rule t3 [THEN conjunct2, THEN conjunct2, THEN conjunct1, THEN mp])
       (simp add: silent_env_def ex_env_def g0_def user_msg_def get_key_def py_or_def)
  have c4: "summarize_history ex_env g0 (JArr (replicate 5 user_msg)) = (Inr (JStr []), [])"
    by (rule t4 [THEN conjunct2, THEN conjunct2, THEN conjunct2, THEN conjunct1,
                 THEN spec [where x = "5::nat"], THEN mp]) simp
  have "\<exists>p. build_prompt silent_env (JArr (replicate 6 user_msg)) = Inr p"
    by (simp add: build_prompt_def message_line_def silent_env_def ex_env_def g0_def
        user_msg_def numeral_eq_Suc)
  then obtain p where p: "build_prompt silent_env (JArr (replicate 6 user_msg)) = Inr p" by blast
  have i: "model_invoke silent_env p = Inl InvokeError" by (simp add: silent_env_def ex_env_def g0_def user_msg_def)
  have c5: "fst (summarize_history silent_env g0 (JArr (replicate 6 user_msg))) = Inr (JStr [])"
    by (rule t5 [THEN conjunct2, THEN conjunct2, THEN conjunct2, THEN conjunct2, THEN conjunct1,
                 THEN spec, THEN spec, THEN mp]) (use p i in blast)
  have c6: "snd (summarize_history silent_env g0 (JArr (replicate 6 user_msg))) \<noteq> []"
    using p by (simp add: summarize_history_def silent_env_def ex_env_def g0_def
        user_msg_def get_key_def py_or_def)
  have q: "\<exists>p. build_prompt ex_env (JArr (replicate 6 user_msg)) = Inr p"
    by (simp add: build_prompt_def message_line_def silent_env_def ex_env_def g0_def
        user_msg_def numeral_eq_Suc)
  have c7: "fst (summarize_history ex_env g0 (JArr (replicate 6 user_msg))) = Inr (JStr ''a summary'')"
    using q by (auto simp add: summarize_history_def silent_env_def ex_env_def g0_def
        user_msg_def get_key_def py_or_def)
  show ?thesis by (intro conjI c1 c2 c3 c4 c5 c6 c7)
qed

section \<open>Properties of the request handler\<close>

lemma globals_update: "g\<lparr>KEY_OVERRIDE := v\<rparr> = \<lparr>KEY_OVERRIDE = v\<rparr>"
  by (cases g) simp

lemma handler_try_globals: "fst (handler_try E req g) = fst (handler_try E req g')"
  by (simp add: handler_try_def globals_update Let_def split: sum.splits)

lemma summarize_falsy: "\<not> truthy messages \<Longrightarrow> summarize_history E g messages = (Inr (JStr []), [])"
  by (simp add: summarize_history_def Let_def)

lemma classify_intent_empty: "classify_intent (JStr []) = Inr ''general''"
  by (simp add: classify_intent_def lowered_JStr lower_def nec_keywords_def wattmonk_keywords_def)

lemma graph_invoke_empty_query:
  "graph_invoke E g (JStr []) =
     (case retrieve E g (JStr []) ''general'' 6 of
        Inl e \<Rightarrow> Inl e
      | Inr (docs, scores) \<Rightarrow>
          Inr \<lparr>st_query = JStr [], st_intent = ''general'', st_docs = map to_sdoc docs,
               st_scores = scores, st_mode = decide_mode scores ''general''\<rparr>)"
  by (simp add: graph_invoke_def classify_intent_empty)

lemmas handler_eval = handler_def handler_try_def request_query_def json_dumps_def
  graph_invoke_def classify_intent_def lowered_def lower_def nec_keywords_def
  wattmonk_keywords_def summarize_history_def last_content_def shape_doc_def to_sdoc_def
  dict_get_def decide_mode_def enumerate_eq_zip

text \<open>
  C6, as the code has it. In \<^verbatim>\<open>load_vs\<close> the embeddings are constructed before the
  \<^verbatim>\<open>try\<close> block that turns a failing load into \<^verbatim>\<open>None\<close>. A request whose
  \<^verbatim>\<open>apiKey\<close> is \<^verbatim>\<open>true\<close> makes the constructor raise for a collection whose
  directory exists: the exception leaves \<^verbatim>\<open>load_vs\<close> and \<^verbatim>\<open>retrieve\<close>, and the
  handler answers with status 500. The other failures are swallowed: with one directory
  missing and a load that raises, and with searches that raise, \<^verbatim>\<open>retrieve\<close> returns
  two empty lists, on which the mode is \<^verbatim>\<open>general\<close>.
\<close>

theorem retrieve_constructor_failure:
  "load_vs ex_env \<lparr>KEY_OVERRIDE = JBool True\<rparr> ''nec'' = Inl ValidationError
   \<and> retrieve ex_env \<lparr>KEY_OVERRIDE = JBool True\<rparr> (JStr ''grounding'') ''general'' 6
       = Inl ValidationError
   \<and> handler ex_env \<lparr>req_method = ''POST'', get_data = ''{apiKey: true}''\<rparr> g0
       = (\<lparr>status = 500, body = Failure ValidationError\<rparr>, \<lparr>KEY_OVERRIDE = JNull\<rparr>)
   \<and> retrieve down_env g0 (JStr ''grounding'') ''general'' 6 = Inr ([], [])
   \<and> retrieve raising_env g0 (JStr ''grounding'') ''general'' 6 = Inr ([], [])
   \<and> decide_mode [] ''general'' = ''general''"
  by (simp add: handler_eval down_env_def raising_env_def vs_down_def ex_eval)

text \<open>
  C7, as the code has it. The handler has no test for an empty query: it searches both
  collections with it. Where they return documents for the empty query, the retrieval
  result of an empty request body is not empty: the pipeline ends with three documents
  and the mode \<^verbatim>\<open>rag\<close>. The handler then answers with these documents, or with
  status 500 when \<^verbatim>\<open>json.dumps\<close> refuses their scores.
\<close>

theorem handler_empty_request_counterexample:
  "graph_invoke ex_env g0 (JStr []) =
     Inr \<lparr>st_query = JStr [], st_intent = ''general'',
          st_docs = [to_sdoc doc_a, to_sdoc doc_c, to_sdoc doc_b],
          st_scores = [3602879701896397 / 4503599627370496, 1 / 2, 1 / 4],
          st_mode = ''rag''\<rparr>
   \<and> handler ex_env \<lparr>req_method = ''POST'', get_data = ''''\<rparr> g0 =
     (\<lparr>status = 200,
        body = Answer
          \<lparr>ans_intent = ''general'', ans_mode = ''rag'',
           ans_docs =
             [\<lparr>out_id = 1, out_text = ''Article 250 covers grounding and bonding.'',
               out_source = JStr ''nec.pdf'', out_file = JStr [],
               out_score = 3602879701896397 / 4503599627370496\<rparr>,
              \<lparr>out_id = 2, out_text = ''Wattmonk turnaround is 24 hours.'',
               out_source = JStr [], out_file = JStr [], out_score = 1 / 2\<rparr>,
              \<lparr>out_id = 3, out_text = ''Article 210 covers branch circuits.'',
               out_source = JStr ''nec.pdf'', out_file = JStr ''nec.pdf'', out_score = 1 / 4\<rparr>],
           ans_memory_summary = JStr []\<rparr>\<rparr>,
      \<lparr>KEY_OVERRIDE = JNull\<rparr>)
   \<and> handler numpy_env \<lparr>req_method = ''POST'', get_data = ''''\<rparr> g0 =
     (\<lparr>status = 500, body = Failure TypeError\<rparr>, \<lparr>KEY_OVERRIDE = JNull\<rparr>)"
  by (simp add: handler_eval numpy_env_def doc_a_def doc_b_def doc_c_def ex_eval)

text \<open>
  C7, amended. For a request whose body has no messages (or an empty list) and no query
  (or an empty one), the handler runs the pipeline on the empty string; the pipeline
  classifies it \<^verbatim>\<open>general\<close> and searches both collections with it. When the
  embeddings constructor does not raise and the collections contribute no candidate for
  the empty query, the retrieval result is empty, the mode is \<^verbatim>\<open>general\<close>, and the
  handler answers with status 200, no documents and an empty summary.
\<close>

theorem handler_empty_request:
  assumes "req_method req \<noteq> ''OPTIONS''"
    and "json_loads E (if get_data req \<noteq> [] then get_data req else ''{}'') = Inr (JObj kvs)"
    and "map_of kvs ''messages'' = None \<or> map_of kvs ''messages'' = Some (JArr [])"
    and "map_of kvs ''query'' = None \<or> map_of kvs ''query'' = Some (JStr [])"
    and "g1 = \<lparr>KEY_OVERRIDE = py_or (dict_get kvs ''apiKey'' JNull) JNull\<rparr>"
  shows "fst (handler_try E req g) =
           (case graph_invoke E g1 (JStr []) of
              Inl e \<Rightarrow> Inl e
            | Inr result \<Rightarrow>
                (case json_dumps E
                        \<lparr>ans_intent = st_intent result, ans_mode = st_mode result,
                         ans_docs = map (shape_doc (st_scores result))
                                        (enumerate 0 (st_docs result)),
                         ans_memory_summary = JStr []\<rparr> of
                   Inl e \<Rightarrow> Inl e
                 | Inr resp \<Rightarrow> Inr \<lparr>status = 200, body = Answer resp\<rparr>))
         \<and> graph_invoke E g1 (JStr []) =
           (case retrieve E g1 (JStr []) ''general'' 6 of
              Inl e \<Rightarrow> Inl e
            | Inr (docs, scores) \<Rightarrow>
                Inr \<lparr>st_query = JStr [], st_intent = ''general'', st_docs = map to_sdoc docs,
                     st_scores = scores, st_mode = decide_mode scores ''general''\<rparr>)
         \<and> (load_failure E g1 ''general'' = None
              \<and> (\<forall>name \<in> set (selected_collections ''general'').
                    contribution E g1 (JStr []) 6 name = [])
              \<longrightarrow> graph_invoke E g1 (JStr []) =
                    Inr \<lparr>st_query = JStr [], st_intent = ''general'', st_docs = [],
                         st_scores = [], st_mode = ''general''\<rparr>
                  \<and> handler E req g =
                    (\<lparr>status = 200,
                       body = Answer \<lparr>ans_intent = ''general'', ans_mode = ''general'',
                                      ans_docs = [], ans_memory_summary = JStr []\<rparr>\<rparr>,
                     \<lparr>KEY_OVERRIDE = JNull\<rparr>))"
proof -
  have k: "py_get (JObj kvs) ''apiKey'' JNull = Inr (dict_get kvs ''apiKey'' JNull)"
    by (simp add: dict_get_def split: option.splits)
  obtain messages where m: "py_get (JObj kvs) ''messages'' (JArr []) = Inr messages"
    and f: "\<not> truthy messages"
    using assms(3) by auto
  have "py_get (JObj kvs) ''query'' (JStr []) = Inr (JStr [])"
    using assms(4) by auto
  with f have q: "request_query (JObj kvs) messages = Inr (JStr [])"
    by (simp add: request_query_def)
  have s: "summarize_history E g1 messages = (Inr (JStr []), [])"
    using f by (rule summarize_falsy)
  have t: "handler_try E req g =
          (case graph_invoke E g1 (JStr []) of
              Inl e \<Rightarrow> (Inl e, g1)
            | Inr result \<Rightarrow>
                (case json_dumps E
                        \<lparr>ans_intent = st_intent result, ans_mode = st_mode result,
                         ans_docs = map (shape_doc (st_scores result))
                                        (enumerate 0 (st_docs result)),
                         ans_memory_summary = JStr []\<rparr> of
                   Inl e \<Rightarrow> (Inl e, g1)
                 | Inr resp \<Rightarrow> (Inr \<lparr>status = 200, body = Answer resp\<rparr>, g1)))"
    using assms(1,2) k m q s
    by (simp add: handler_try_def globals_update assms(5) split: sum.splits)
  have c1: "fst (handler_try E req g) =
           (case graph_invoke E g1 (JStr []) of
              Inl e \<Rightarrow> Inl e
            | Inr result \<Rightarrow>
                (case json_dumps E
                        \<lparr>ans_intent = st_intent result, ans_mode = st_mode result,
                         ans_docs = map (shape_doc (st_scores result))
                                        (enumerate 0 (st_docs result)),
                         ans_memory_summary = JStr []\<rparr> of
                   Inl e \<Rightarrow> Inl e
                 | Inr resp \<Rightarrow> Inr \<lparr>status = 200, body = Answer resp\<rparr>))"
    unfolding t by (simp split: sum.splits)
  have gi: "graph_invoke E g1 (JStr []) =
           (case retrieve E g1 (JStr []) ''general'' 6 of
              Inl e \<Rightarrow> Inl e
            | Inr (docs, scores) \<Rightarrow>
                Inr \<lparr>st_query = JStr [], st_intent = ''general'', st_docs = map to_sdoc docs,
                     st_scores = scores, st_mode = decide_mode scores ''general''\<rparr>)"
    by (rule graph_invoke_empty_query)
  have c3: "graph_invoke E g1 (JStr []) =
                    Inr \<lparr>st_query = JStr [], st_intent = ''general'', st_docs = [],
                         st_scores = [], st_mode = ''general''\<rparr>
                  \<and> handler E req g =
                    (\<lparr>status = 200,
                       body = Answer \<lparr>ans_intent = ''general'', ans_mode = ''general'',
                                      ans_docs = [], ans_memory_summary = JStr []\<rparr>\<rparr>,
                     \<lparr>KEY_OVERRIDE = JNull\<rparr>)"
    if l: "load_failure E g1 ''general'' = None"
      and e: "\<forall>name \<in> set (selected_collections ''general'').
                contribution E g1 (JStr []) 6 name = []"
  proof -
    from l e have "retrieve E g1 (JStr []) ''general'' 6 = Inr ([], [])"
      by (rule retrieve_no_candidates)
    then have r: "graph_invoke E g1 (JStr []) =
        Inr \<lparr>st_query = JStr [], st_intent = ''general'', st_docs = [], st_scores = [],
             st_mode = ''general''\<rparr>"
      unfolding gi by (simp add: decide_mode_Nil)
    have "handler E req g =
                    (\<lparr>status = 200,
                       body = Answer \<lparr>ans_intent = ''general'', ans_mode = ''general'',
                                      ans_docs = [], ans_memory_summary = JStr []\<rparr>\<rparr>,
                     \<lparr>KEY_OVERRIDE = JNull\<rparr>)"
      unfolding handler_def t r by (simp add: assms(5) json_dumps_def)
    with r show ?thesis by (rule conjI)
  qed
  from c1 gi c3 show ?thesis by blast
qed

theorem handler_empty_request_witness:
  "graph_invoke down_env g0 (JStr []) =
     Inr \<lparr>st_query = JStr [], st_intent = ''general'', st_docs = [], st_scores = [],
          st_mode = ''general''\<rparr>
   \<and> handler down_env \<lparr>req_method = ''POST'', get_data = ''''\<rparr> g0 =
     (\<lparr>status = 200,
        body = Answer \<lparr>ans_intent = ''general'', ans_mode = ''general'', ans_docs = [],
                       ans_memory_summary = JStr []\<rparr>\<rparr>,
      \<lparr>KEY_OVERRIDE = JNull\<rparr>)"
proof -
  have h1: "req_method \<lparr>req_method = ''POST'', get_data = ''''\<rparr> \<noteq> ''OPTIONS''" by simp
  have h2: "json_loads down_env
              (if get_data \<lparr>req_method = ''POST'', get_data = ''''\<rparr> \<noteq> []
               then get_data \<lparr>req_method = ''POST'', get_data = ''''\<rparr> else ''{}'') = Inr (JObj [])"
    by (simp add: down_env_def ex_env_def)
  have h3: "map_of [] ''messages'' = None \<or> map_of [] ''messages'' = Some (JArr [])" by simp
  have h4: "map_of [] ''query'' = None \<or> map_of [] ''query'' = Some (JStr [])" by simp
  have h5: "g0 = \<lparr>KEY_OVERRIDE = py_or (dict_get [] ''apiKey'' JNull) JNull\<rparr>"
    by (simp add: g0_def dict_get_def py_or_def)
  have h6: "load_failure down_env g0 ''general'' = None"
    by (simp add: load_failure_def selected_collections_def List.map_filter_simps
        load_vs_def get_key_def py_or_def down_env_def ex_env_def g0_def)
  have h7: "\<forall>name \<in> set (selected_collections ''general'').
           contribution down_env g0 (JStr []) 6 name = []"
    by (simp add: selected_collections_def contribution_def load_vs_def get_key_def py_or_def
        down_env_def ex_env_def g0_def)
  from handler_empty_request [OF h1 h2 h3 h4 h5, of g0, THEN conjunct2, THEN conjunct2,
      THEN mp, OF conjI, OF h6 h7]
  show ?thesis .
qed

text \<open>
  C8. After the handler, on every path (the \<^verbatim>\<open>OPTIONS\<close> reply, a body that does not
  parse, any exception of the pipeline, success), \<open>KEY_OVERRIDE\<close> is \<^verbatim>\<open>None\<close>: the
  credential in effect is again the one of the environment, and the response of a request
  does not depend on the globals it started with.
\<close>

theorem handler_clears_override:
  "KEY_OVERRIDE (snd (handler E req g)) = JNull
   \<and> get_key E (snd (handler E req g)) = GOOGLE_API_KEY E
   \<and> fst (handler E req g) = fst (handler E req g')"
proof (intro conjI)
  show c: "KEY_OVERRIDE (snd (handler E req g)) = JNull"
    by (simp add: handler_def split: prod.splits sum.splits)
  then show "get_key E (snd (handler E req g)) = GOOGLE_API_KEY E"
    by (simp add: get_key_def py_or_def)
  show "fst (handler E req g) = fst (handler E req g')"
    using handler_try_globals [of E req g g']
    by (auto simp: handler_def split: prod.splits sum.splits)
qed

theorem handler_clears_override_witness:
  "KEY_OVERRIDE (snd (handler_try ex_env \<lparr>req_method = ''POST'', get_data = ''{apiKey: k1, messages: 5}''\<rparr> g0)) = JStr ''k1''
   \<and> handler ex_env \<lparr>req_method = ''POST'', get_data = ''{apiKey: k1, messages: 5}''\<rparr> g0
       = (\<lparr>status = 500, body = Failure TypeError\<rparr>, \<lparr>KEY_OVERRIDE = JNull\<rparr>)
   \<and> handler ex_env \<lparr>req_method = ''POST'', get_data = ''not json''\<rparr> g0
       = (\<lparr>status = 500, body = Failure JSONDecodeError\<rparr>, \<lparr>KEY_OVERRIDE = JNull\<rparr>)
   \<and> handler ex_env \<lparr>req_method = ''POST'', get_data = ''[1, 2]''\<rparr> g0
       = (\<lparr>status = 500, body = Failure AttributeError\<rparr>, \<lparr>KEY_OVERRIDE = JNull\<rparr>)
   \<and> handler ex_env \<lparr>req_method = ''OPTIONS'', get_data = ''''\<rparr> \<lparr>KEY_OVERRIDE = JStr ''stale''\<rparr>
       = (\<lparr>status = 200, body = NoBody\<rparr>, \<lparr>KEY_OVERRIDE = JNull\<rparr>)"
  using handler_clears_override [of ex_env "\<lparr>req_method = ''POST'', get_data = ''{apiKey: k1, messages: 5}''\<rparr>" g0 g0]
  by (simp add: handler_def handler_try_def request_query_def graph_invoke_def
        classify_intent_def lowered_def
        lower_def nec_keywords_def wattmonk_keywords_def summarize_history_def last_content_def
        shape_doc_def to_sdoc_def dict_get_def decide_mode_def ex_env_def g0_def py_or_def)

end
